theory Spec2Isabelle
  imports Main "HOL-Library.Word"
begin

section \<open>Machine types\<close>

text \<open>
  Go's \<open>int64\<close> and \<open>uint32\<close> are fixed-width words. Revisions are compared as
  signed values (\<open><s\<close>, \<open>\<le>s\<close>) and \<open>lastRevision + 1\<close> wraps around as it
  does in Go.
\<close>

type_synonym int64 = "64 word"
type_synonym uint32 = "32 word"
type_synonym byte = "8 word"

section \<open>Hash consistency verifier: \<open>CheckHashKV\<close>\<close>

text \<open>
  \<open>clientv3.HashKVResponse\<close>: the keyspace hash, the revision it was computed at,
  the compaction boundary and the response header's revision.
\<close>

record HashKVResponse =
  Hash :: uint32
  HashRevision :: int64
  CompactRevision :: int64
  Header_Revision :: int64

text \<open>
  Every way in which \<open>CheckHashKV\<close> stops without success. \<open>ExternalError\<close> is an
  error value handed back by \<open>clientv3.New\<close> or \<open>Client.HashKV\<close>; the three mismatch
  errors come from the comparison loop; \<open>MaxRevisionMismatch want got\<close> is the header
  check of the probing loop; \<open>RequireLen\<close> is the failed \<open>require.Lenf\<close> of the
  two-pass variant; \<open>IndexOutOfRange\<close> and \<open>NilDereference\<close> are run-time panics.
\<close>

datatype error =
    ExternalError string
  | MaxRevisionMismatch int64 int64
  | HashRevisionMismatch
  | CompactRevisionMismatch
  | HashMismatch
  | RequireLen nat
  | IndexOutOfRange
  | NilDereference

text \<open>
  The collaborators the verifier calls into. \<open>clientv3_New\<close> yields the error of
  dialling the given endpoints, if any. \<open>HashKV\<close> is the probe RPC; its first
  argument is the number of probes issued before it, so that a member may answer the
  same question differently at different times.
\<close>

record env =
  clientv3_New :: "string list \<Rightarrow> string option"
  HashKV :: "nat \<Rightarrow> string \<Rightarrow> int64 \<Rightarrow> string + HashKVResponse"

record EtcdProcess =
  member_EndpointsGRPC :: "string list"

record EtcdProcessCluster =
  Procs :: "EtcdProcess list"
  clus_EndpointsGRPC :: "string list"

text \<open>The probes issued so far, oldest first: endpoint and requested revision.\<close>

type_synonym rpc_log = "(string \<times> int64) list"

subsection \<open>The variant that returns an error (unnamed/part_000)\<close>

definition getHashKV ::
  "env \<Rightarrow> rpc_log \<Rightarrow> string \<Rightarrow> int64 \<Rightarrow> rpc_log \<times> (error + HashKVResponse)" where
  "getHashKV e log endpoint revision =
     (log @ [(endpoint, revision)],
      case HashKV e (length log) endpoint revision of
        Inl err \<Rightarrow> Inl (ExternalError err)
      | Inr hashKV \<Rightarrow> Inr hashKV)"

text \<open>
  Lines 42--49: with \<open>rev = 0\<close> one probe of the cluster's first endpoint fixes the
  revision, and its response is the first element of \<open>hashKVs\<close>.
\<close>

definition fixRevision ::
  "env \<Rightarrow> EtcdProcessCluster \<Rightarrow> int64 \<Rightarrow> rpc_log \<times> (error + int64 \<times> HashKVResponse list)" where
  "fixRevision e clus revision =
     (if revision = 0 then
        (case clus_EndpointsGRPC clus of
           [] \<Rightarrow> ([], Inl IndexOutOfRange)
         | endpoint # _ \<Rightarrow>
             (case getHashKV e [] endpoint revision of
                (log, Inl err) \<Rightarrow> (log, Inl err)
              | (log, Inr hashKV) \<Rightarrow> (log, Inr (Header_Revision hashKV, [hashKV]))))
      else ([], Inr (revision, [])))"

text \<open>Lines 51--60: the loop over \<open>clus.Procs\<close>.\<close>

fun probeMembers ::
  "env \<Rightarrow> int64 \<Rightarrow> EtcdProcess list \<Rightarrow> rpc_log \<Rightarrow> HashKVResponse list
     \<Rightarrow> rpc_log \<times> (error + HashKVResponse list)" where
  "probeMembers e revision [] log hashKVs = (log, Inr hashKVs)"
| "probeMembers e revision (member # rest) log hashKVs =
     (case member_EndpointsGRPC member of
        [] \<Rightarrow> (log, Inl IndexOutOfRange)
      | endpoint # _ \<Rightarrow>
          (case getHashKV e log endpoint revision of
             (log', Inl err) \<Rightarrow> (log', Inl err)
           | (log', Inr hashKV) \<Rightarrow>
               if Header_Revision hashKV \<noteq> revision
               then (log', Inl (MaxRevisionMismatch revision (Header_Revision hashKV)))
               else probeMembers e revision rest log' (hashKVs @ [hashKV])))"

text \<open>
  Lines 62--72: \<open>for i := 1; i < len(clus.Procs); i++\<close>. The bound \<open>n\<close> is
  \<open>len(clus.Procs)\<close>, not the length of \<open>hashKVs\<close>.
\<close>

function compareHashKVs_part000 :: "nat \<Rightarrow> nat \<Rightarrow> HashKVResponse list \<Rightarrow> error + unit" where
  "compareHashKVs_part000 i n hashKVs =
     (if i < n then
        (if length hashKVs \<le> i then Inl IndexOutOfRange
         else if HashRevision (hashKVs ! (i - 1)) \<noteq> HashRevision (hashKVs ! i)
           then Inl HashRevisionMismatch
         else if CompactRevision (hashKVs ! (i - 1)) \<noteq> CompactRevision (hashKVs ! i)
           then Inl CompactRevisionMismatch
         else if Hash (hashKVs ! (i - 1)) \<noteq> Hash (hashKVs ! i)
           then Inl HashMismatch
         else compareHashKVs_part000 (i + 1) n hashKVs)
      else Inr ())"
  by pat_completeness auto
termination
  by (relation "measure (\<lambda>(i, n, hashKVs). n - i)") auto

definition CheckHashKV_part000 ::
  "env \<Rightarrow> EtcdProcessCluster \<Rightarrow> int64 \<Rightarrow> rpc_log \<times> (error + unit)" where
  "CheckHashKV_part000 e clus revision =
     (case clientv3_New e (clus_EndpointsGRPC clus) of
        Some err \<Rightarrow> ([], Inl (ExternalError err))
      | None \<Rightarrow>
          (case fixRevision e clus revision of
             (log, Inl err) \<Rightarrow> (log, Inl err)
           | (log, Inr (fixed, hashKVs)) \<Rightarrow>
               (case probeMembers e fixed (Procs clus) log hashKVs of
                  (log', Inl err) \<Rightarrow> (log', Inl err)
                | (log', Inr hashKVs') \<Rightarrow>
                    (log', compareHashKVs_part000 1 (length (Procs clus)) hashKVs'))))"

subsection \<open>The two-pass variant (tests/robustness/client/kvhash.go)\<close>

text \<open>
  Lines 44--49 and 71--76: one probe per endpoint of the member's client;
  \<open>require.NoError\<close> stops the test at the first failure.
\<close>

fun callEndpoints ::
  "env \<Rightarrow> int64 \<Rightarrow> string list \<Rightarrow> rpc_log \<Rightarrow> HashKVResponse list
     \<Rightarrow> rpc_log \<times> (error + HashKVResponse list)" where
  "callEndpoints e revision [] log resp = (log, Inr resp)"
| "callEndpoints e revision (ep # eps) log resp =
     (case HashKV e (length log) ep revision of
        Inl err \<Rightarrow> (log @ [(ep, revision)], Inl (ExternalError err))
      | Inr hashKV \<Rightarrow> callEndpoints e revision eps (log @ [(ep, revision)]) (resp @ [hashKV]))"

text \<open>
  Lines 33--57: the first pass stores each member's response at its index and tracks
  the largest header revision seen (a signed comparison).
\<close>

fun firstPass ::
  "env \<Rightarrow> int64 \<Rightarrow> nat \<Rightarrow> EtcdProcess list \<Rightarrow> rpc_log \<Rightarrow> HashKVResponse option list \<Rightarrow> int64
     \<Rightarrow> rpc_log \<times> (error + HashKVResponse option list \<times> int64)" where
  "firstPass e revision i [] log HashKVs maxRevision = (log, Inr (HashKVs, maxRevision))"
| "firstPass e revision i (member # rest) log HashKVs maxRevision =
     (case clientv3_New e (member_EndpointsGRPC member) of
        Some err \<Rightarrow> (log, Inl (ExternalError err))
      | None \<Rightarrow>
          (case callEndpoints e revision (member_EndpointsGRPC member) log [] of
             (log', Inl err) \<Rightarrow> (log', Inl err)
           | (log', Inr resp) \<Rightarrow>
               if length resp \<noteq> 1 then (log', Inl (RequireLen (length resp)))
               else firstPass e revision (i + 1) rest log' (HashKVs[i := Some (resp ! 0)])
                      (if maxRevision <s Header_Revision (resp ! 0)
                       then Header_Revision (resp ! 0) else maxRevision)))"

text \<open>Lines 59--80: the second pass, at \<open>rev = maxRevision\<close>.\<close>

fun secondPass ::
  "env \<Rightarrow> int64 \<Rightarrow> nat \<Rightarrow> EtcdProcess list \<Rightarrow> rpc_log \<Rightarrow> HashKVResponse option list
     \<Rightarrow> rpc_log \<times> (error + HashKVResponse option list)" where
  "secondPass e revision i [] log HashKVs = (log, Inr HashKVs)"
| "secondPass e revision i (member # rest) log HashKVs =
     (case clientv3_New e (member_EndpointsGRPC member) of
        Some err \<Rightarrow> (log, Inl (ExternalError err))
      | None \<Rightarrow>
          (case callEndpoints e revision (member_EndpointsGRPC member) log [] of
             (log', Inl err) \<Rightarrow> (log', Inl err)
           | (log', Inr resp) \<Rightarrow>
               if length resp \<noteq> 1 then (log', Inl (RequireLen (length resp)))
               else secondPass e revision (i + 1) rest log' (HashKVs[i := Some (resp ! 0)])))"

text \<open>
  Lines 82--86. The third \<open>require.Equalf\<close> reads \<open>HashKVs[1].Hash\<close>, a fixed
  index, where the first two read \<open>HashKVs[i]\<close>.
\<close>

function compareHashKVs_kvhash :: "nat \<Rightarrow> nat \<Rightarrow> HashKVResponse option list \<Rightarrow> error + unit" where
  "compareHashKVs_kvhash i n HashKVs =
     (if i < n then
        (if length HashKVs \<le> i then Inl IndexOutOfRange
         else
           (case HashKVs ! (i - 1) of
              None \<Rightarrow> Inl NilDereference
            | Some a \<Rightarrow>
                (case HashKVs ! i of
                   None \<Rightarrow> Inl NilDereference
                 | Some b \<Rightarrow>
                     if HashRevision a \<noteq> HashRevision b then Inl HashRevisionMismatch
                     else if CompactRevision a \<noteq> CompactRevision b
                       then Inl CompactRevisionMismatch
                     else
                       (case HashKVs ! 1 of
                          None \<Rightarrow> Inl NilDereference
                        | Some c \<Rightarrow>
                            if Hash a \<noteq> Hash c then Inl HashMismatch
                            else compareHashKVs_kvhash (i + 1) n HashKVs))))
      else Inr ())"
  by pat_completeness auto
termination
  by (relation "measure (\<lambda>(i, n, HashKVs). n - i)") auto

definition CheckHashKV_kvhash ::
  "env \<Rightarrow> EtcdProcessCluster \<Rightarrow> int64 \<Rightarrow> rpc_log \<times> (error + unit)" where
  "CheckHashKV_kvhash e clus revision =
     (case firstPass e revision 0 (Procs clus) [] (replicate (length (Procs clus)) None) 0 of
        (log, Inl err) \<Rightarrow> (log, Inl err)
      | (log, Inr (HashKVs, maxRevision)) \<Rightarrow>
          (case secondPass e maxRevision 0 (Procs clus) log HashKVs of
             (log', Inl err) \<Rightarrow> (log', Inl err)
           | (log', Inr HashKVs') \<Rightarrow>
               (log', compareHashKVs_kvhash 1 (length (Procs clus)) HashKVs')))"


section \<open>Watch completeness checker: \<open>checkKVHash\<close> and \<open>ClusterKVHashChecks\<close>\<close>

subsection \<open>One watch worker (\<open>checkKVHash\<close>, unnamed/part_005 lines 135--189)\<close>

text \<open>
  What the worker reads of a watch response: whether \<open>resp.Err()\<close> is non-nil, the
  \<open>Canceled\<close> flag, the compaction revision, and the \<open>Kv.ModRevision\<close> of each
  event in order.
\<close>

record WatchResponse =
  resp_Err :: bool
  Canceled :: bool
  resp_CompactRevision :: int64
  Events :: "int64 list"

text \<open>The three \<open>t.Errorf\<close> calls of \<open>checkKVHash\<close> (lines 147, 150 and 178).\<close>

datatype test_error =
    MaxRevisionNotSet
  | EventsNotCollected int64 int64
  | WatchStreamError

text \<open>
  The worker's variables, and what it has done so far: \<open>ctx_cancelled\<close> says that
  its derived context is done, \<open>cancel_calls\<close> counts its own calls of \<open>cancel()\<close>,
  \<open>watch_from\<close> lists the start revisions of its \<open>c.Watch\<close> calls, \<open>t_errors\<close> the
  test errors it reported, and \<open>returned\<close> that the function has returned.
\<close>

record worker =
  maxRevision :: int64
  lastRevision :: int64
  ctx_cancelled :: bool
  cancel_calls :: nat
  watch_from :: "int64 list"
  t_errors :: "test_error list"
  returned :: bool

text \<open>
  One iteration of the inner loop: the case the \<open>select\<close> statement takes, with
  what it received. \<open>ParentCancel\<close> is the environment cancelling the context handed
  to the worker (deadline or end of test); it is not a case of the \<open>select\<close>.
\<close>

datatype event =
    ParentCancel
  | CtxDone
  | RevisionRecv int64
  | RevisionChanClosed
  | WatchRecv WatchResponse
  | WatchChanClosed

definition cancel :: "worker \<Rightarrow> worker" where
  "cancel w = w\<lparr>ctx_cancelled := True, cancel_calls := cancel_calls w + 1\<rparr>"

text \<open>Line 142, reached at the start and by every \<open>continue resetWatch\<close>.\<close>

definition resetWatch :: "worker \<Rightarrow> worker" where
  "resetWatch w = w\<lparr>watch_from := watch_from w @ [lastRevision w + 1]\<rparr>"

text \<open>Lines 136--142.\<close>

definition checkKVHash_init :: worker where
  "checkKVHash_init =
     resetWatch \<lparr>maxRevision = 0, lastRevision = 1, ctx_cancelled = False, cancel_calls = 0,
                 watch_from = [], t_errors = [], returned = False\<rparr>"

text \<open>Lines 145--152.\<close>

definition onCtxDone :: "worker \<Rightarrow> worker" where
  "onCtxDone w =
     (let w1 = (if maxRevision w = 0
                then w\<lparr>t_errors := t_errors w @ [MaxRevisionNotSet]\<rparr> else w);
          w2 = (if lastRevision w1 <s maxRevision w1
                then w1\<lparr>t_errors := t_errors w1
                         @ [EventsNotCollected (lastRevision w1) (maxRevision w1)]\<rparr>
                else w1)
      in w2\<lparr>returned := True\<rparr>)"

text \<open>Lines 153--158.\<close>

definition onRevision :: "int64 \<Rightarrow> worker \<Rightarrow> worker" where
  "onRevision revision w =
     (let w1 = w\<lparr>maxRevision := revision\<rparr>
      in if maxRevision w1 \<le>s lastRevision w1 then cancel w1 else w1)"

text \<open>Lines 159--164.\<close>

definition onRevisionChanClosed :: "worker \<Rightarrow> worker" where
  "onRevisionChanClosed w = (if maxRevision w = 0 then cancel w else w)"

text \<open>
  Lines 165--186. After the \<open>t.Errorf\<close> of line 178 the code falls through to the
  event and milestone checks.
\<close>

definition onWatchResponse :: "WatchResponse \<Rightarrow> worker \<Rightarrow> worker" where
  "onWatchResponse resp w =
     (if resp_Err resp \<and> Canceled resp then
        resetWatch (if lastRevision w <s resp_CompactRevision resp
                    then w\<lparr>lastRevision := resp_CompactRevision resp\<rparr> else w)
      else
        (let w1 = (if resp_Err resp
                   then w\<lparr>t_errors := t_errors w @ [WatchStreamError]\<rparr> else w);
             w2 = (if Events resp \<noteq> []
                   then w1\<lparr>lastRevision := last (Events resp)\<rparr> else w1)
         in if maxRevision w2 \<noteq> 0 \<and> maxRevision w2 \<le>s lastRevision w2
            then cancel w2 else w2))"

text \<open>
  A case of the \<open>select\<close> can only be taken when it is ready: \<open>CtxDone\<close> does
  nothing unless the context is done.
\<close>

fun step :: "event \<Rightarrow> worker \<Rightarrow> worker" where
  "step ParentCancel w = w\<lparr>ctx_cancelled := True\<rparr>"
| "step CtxDone w = (if ctx_cancelled w then onCtxDone w else w)"
| "step (RevisionRecv revision) w = onRevision revision w"
| "step RevisionChanClosed w = onRevisionChanClosed w"
| "step (WatchRecv resp) w = onWatchResponse resp w"
| "step WatchChanClosed w = resetWatch w"

text \<open>A run of the worker; nothing happens to it once it has returned.\<close>

definition checkKVHash_from :: "worker \<Rightarrow> event list \<Rightarrow> worker" where
  "checkKVHash_from w0 evs = foldl (\<lambda>w ev. if returned w then w else step ev w) w0 evs"

definition checkKVHash :: "event list \<Rightarrow> worker" where
  "checkKVHash evs = checkKVHash_from checkKVHash_init evs"

subsection \<open>The checker (\<open>ClusterKVHashChecks\<close>, unnamed/part_005 lines 90--129)\<close>

text \<open>
  The distributor goroutine of lines 115--126: waiting on \<open>hashKVRevisionChan\<close>,
  about to send a value to \<open>memberHashKVRevisionChans[k]\<close>, or past its \<open>break\<close>.
\<close>

datatype distributor_pc = Receiving | Forwarding int64 nat | Exited

text \<open>
  The shared state: the values sent on \<open>hashKVRevisionChan\<close> and not yet received,
  whether the driver closed it, the buffered contents of the per-member channels, the
  distributor, and one worker per member. \<open>received\<close> records, per worker, the target
  revisions it has received, in order.
\<close>

record checker =
  hashKVRevisionChan :: "int64 list"
  chan_closed :: bool
  memberHashKVRevisionChans :: "int64 list list"
  distributor :: distributor_pc
  workers :: "worker list"
  received :: "int64 list list"

text \<open>
  What the scheduler picks next: a step of the distributor, a case of worker \<open>i\<close>'s
  \<open>select\<close> (the watch response is the environment's; the revision is whatever the
  worker's channel holds), or the cancellation of the context shared by all workers.
\<close>

datatype choice = OnCtxDone | OnRevisionChan | OnWatch "WatchResponse option"

datatype action = Distributor | Worker nat choice | CancelContext

text \<open>
  Lines 98--113: \<open>make(chan int64, 100)\<close> per member and one worker goroutine each.
  The driver's part is fixed in advance: it has sent \<open>stream\<close> on
  \<open>hashKVRevisionChan\<close> and closed it, so a receiver sees the values in order and
  then the closure.
\<close>

definition ClusterKVHashChecks_init :: "nat \<Rightarrow> int64 list \<Rightarrow> checker" where
  "ClusterKVHashChecks_init n stream =
     \<lparr>hashKVRevisionChan = stream, chan_closed = True,
      memberHashKVRevisionChans = replicate n [], distributor = Receiving,
      workers = replicate n checkKVHash_init, received = replicate n []\<rparr>"

text \<open>Lines 117--125. A send on a full channel (100 buffered values) blocks.\<close>

definition distribute :: "checker \<Rightarrow> checker" where
  "distribute c =
     (case distributor c of
        Receiving \<Rightarrow>
          (case hashKVRevisionChan c of
             revision # rest \<Rightarrow> c\<lparr>hashKVRevisionChan := rest, distributor := Forwarding revision 0\<rparr>
           | [] \<Rightarrow> if chan_closed c then c\<lparr>distributor := Exited\<rparr> else c)
      | Forwarding revision k \<Rightarrow>
          if k < length (memberHashKVRevisionChans c) then
            (if length (memberHashKVRevisionChans c ! k) < 100
             then c\<lparr>memberHashKVRevisionChans :=
                       (memberHashKVRevisionChans c)
                         [k := memberHashKVRevisionChans c ! k @ [revision]],
                     distributor := Forwarding revision (k + 1)\<rparr>
             else c)
          else c\<lparr>distributor := Receiving\<rparr>
      | Exited \<Rightarrow> c)"

text \<open>
  Line 108 hands every worker \<open>hashKVRevisionChan\<close>, the shared channel: that is the
  channel the worker's \<open>select\<close> receives from (line 153).
\<close>

definition workerStep :: "nat \<Rightarrow> choice \<Rightarrow> checker \<Rightarrow> checker" where
  "workerStep i ch c =
     (if i < length (workers c) \<and> \<not> returned (workers c ! i) then
        (case ch of
           OnCtxDone \<Rightarrow> c\<lparr>workers := (workers c)[i := step CtxDone (workers c ! i)]\<rparr>
         | OnWatch None \<Rightarrow> c\<lparr>workers := (workers c)[i := step WatchChanClosed (workers c ! i)]\<rparr>
         | OnWatch (Some resp) \<Rightarrow>
             c\<lparr>workers := (workers c)[i := step (WatchRecv resp) (workers c ! i)]\<rparr>
         | OnRevisionChan \<Rightarrow>
             (case hashKVRevisionChan c of
                revision # rest \<Rightarrow>
                  c\<lparr>hashKVRevisionChan := rest,
                    workers := (workers c)[i := step (RevisionRecv revision) (workers c ! i)],
                    received := (received c)[i := received c ! i @ [revision]]\<rparr>
              | [] \<Rightarrow>
                  if chan_closed c
                  then c\<lparr>workers := (workers c)[i := step RevisionChanClosed (workers c ! i)]\<rparr>
                  else c))
      else c)"

fun act :: "action \<Rightarrow> checker \<Rightarrow> checker" where
  "act Distributor c = distribute c"
| "act (Worker i ch) c = workerStep i ch c"
| "act CancelContext c = c\<lparr>workers := map (step ParentCancel) (workers c)\<rparr>"

definition ClusterKVHashChecks :: "nat \<Rightarrow> int64 list \<Rightarrow> action list \<Rightarrow> checker" where
  "ClusterKVHashChecks n stream schedule =
     foldl (\<lambda>c a. act a c) (ClusterKVHashChecks_init n stream) schedule"

section \<open>Fault-injection stream wrappers (package rafthttp)\<close>

text \<open>
  Run-time panics: a method call through a nil interface value, and a failed type
  assertion.
\<close>

datatype panic = NilPointerDereference | InterfaceConversion

text \<open>
  The failpoint registry: whether the gofail failpoint of a given name is armed. An
  armed failpoint runs the statement written in the comment below its declaration.
\<close>

type_synonym failpoints = "string \<Rightarrow> bool"

text \<open>
  An \<open>io.ReadCloser\<close> value, over a stream state \<open>'s\<close>: \<open>Read\<close> takes the
  caller's buffer and yields the count, the error and the buffer as it left it.
\<close>

record 's ReadCloser =
  ReadCloser_Read :: "byte list \<Rightarrow> 's \<Rightarrow> (nat \<times> string option \<times> byte list) \<times> 's"
  ReadCloser_Close :: "'s \<Rightarrow> string option \<times> 's"

text \<open>The wrapper; \<open>None\<close> is a nil \<open>originalReadCloser\<close>.\<close>

record 's hijackedReadCloser =
  originalReadCloser :: "'s ReadCloser option"

text \<open>
  unnamed/part_005 lines 50--57: one read into a fresh buffer of \<open>len(p)\<close> zero
  bytes; the count and the data are dropped, the error is returned.
\<close>

definition discardReadData ::
  "'s ReadCloser option \<Rightarrow> byte list \<Rightarrow> 's
     \<Rightarrow> panic + (nat \<times> string option \<times> byte list) \<times> 's" where
  "discardReadData rc p s =
     (case rc of
        None \<Rightarrow> Inl NilPointerDereference
      | Some r \<Rightarrow>
          (case ReadCloser_Read r (replicate (length p) 0) s of
             ((_, err, _), s') \<Rightarrow> Inr ((0, err, p), s')))"

text \<open>Lines 26--34.\<close>

definition hijackedReadCloser_Read ::
  "failpoints \<Rightarrow> 's hijackedReadCloser \<Rightarrow> byte list \<Rightarrow> 's
     \<Rightarrow> panic + (nat \<times> string option \<times> byte list) \<times> 's" where
  "hijackedReadCloser_Read fp h p s =
     (if fp ''DemoDropRequestBodyFailPoint'' then discardReadData (originalReadCloser h) p s
      else
        (case originalReadCloser h of
           None \<Rightarrow> Inr ((0, None, p), s)
         | Some r \<Rightarrow> Inr (ReadCloser_Read r p s)))"

text \<open>Lines 36--41.\<close>

definition hijackedReadCloser_Close ::
  "'s hijackedReadCloser \<Rightarrow> 's \<Rightarrow> panic + string option \<times> 's" where
  "hijackedReadCloser_Close h s =
     (case originalReadCloser h of
        None \<Rightarrow> Inr (None, s)
      | Some r \<Rightarrow> Inr (ReadCloser_Close r s))"

text \<open>Lines 44--48: the request's body, nil or not, becomes the wrapped stream.\<close>

definition hijackRequestBody :: "'s ReadCloser option \<Rightarrow> 's hijackedReadCloser" where
  "hijackRequestBody body = \<lparr>originalReadCloser = body\<rparr>"

text \<open>
  An \<open>http.ResponseWriter\<close> value over a connection state \<open>'w\<close>.
  \<open>ResponseWriter_Flusher\<close> is its \<open>Flush\<close> method when its dynamic type
  implements \<open>http.Flusher\<close>.
\<close>

record 'w ResponseWriter =
  ResponseWriter_Header :: "'w \<Rightarrow> (string \<times> string list) list"
  ResponseWriter_Write :: "byte list \<Rightarrow> 'w \<Rightarrow> (nat \<times> string option) \<times> 'w"
  ResponseWriter_WriteHeader :: "int \<Rightarrow> 'w \<Rightarrow> 'w"
  ResponseWriter_Flusher :: "('w \<Rightarrow> 'w) option"

record 'w hijackedResponseWriter =
  originalResponseWriter :: "'w ResponseWriter option"

text \<open>hijackedWriter.go lines 62--64.\<close>

definition discardWriteData :: "byte list \<Rightarrow> nat \<times> string option" where
  "discardWriteData p = (0, None)"

text \<open>Lines 25--27.\<close>

definition hijackedResponseWriter_Header ::
  "'w hijackedResponseWriter \<Rightarrow> 'w \<Rightarrow> panic + (string \<times> string list) list" where
  "hijackedResponseWriter_Header h w =
     (case originalResponseWriter h of
        None \<Rightarrow> Inl NilPointerDereference
      | Some r \<Rightarrow> Inr (ResponseWriter_Header r w))"

text \<open>Lines 29--38.\<close>

definition hijackedResponseWriter_Write ::
  "failpoints \<Rightarrow> 'w hijackedResponseWriter \<Rightarrow> byte list \<Rightarrow> 'w
     \<Rightarrow> panic + (nat \<times> string option) \<times> 'w" where
  "hijackedResponseWriter_Write fp h p w =
     (if fp ''HijackResponseWriterFailPoint'' then Inr (discardWriteData p, w)
      else
        (case originalResponseWriter h of
           None \<Rightarrow> Inr ((0, None), w)
         | Some r \<Rightarrow> Inr (ResponseWriter_Write r p w)))"

text \<open>Lines 40--49.\<close>

definition hijackedResponseWriter_WriteHeader ::
  "failpoints \<Rightarrow> 'w hijackedResponseWriter \<Rightarrow> int \<Rightarrow> 'w \<Rightarrow> panic + 'w" where
  "hijackedResponseWriter_WriteHeader fp h statusCode w =
     (if fp ''HijackResponseWriterHeaderFailPoint'' then Inr w
      else
        (case originalResponseWriter h of
           None \<Rightarrow> Inr w
         | Some r \<Rightarrow> Inr (ResponseWriter_WriteHeader r statusCode w)))"

text \<open>
  Lines 51--53: \<open>h.originalResponseWriter.(http.Flusher).Flush()\<close>. The type
  assertion panics on a nil interface and on a writer that is no \<open>http.Flusher\<close>.
\<close>

definition hijackedResponseWriter_Flush ::
  "'w hijackedResponseWriter \<Rightarrow> 'w \<Rightarrow> panic + 'w" where
  "hijackedResponseWriter_Flush h w =
     (case originalResponseWriter h of
        None \<Rightarrow> Inl InterfaceConversion
      | Some r \<Rightarrow>
          (case ResponseWriter_Flusher r of
             None \<Rightarrow> Inl InterfaceConversion
           | Some flush \<Rightarrow> Inr (flush w)))"

text \<open>Lines 56--60.\<close>

definition hijackResponseWriter :: "'w ResponseWriter option \<Rightarrow> 'w hijackedResponseWriter" where
  "hijackResponseWriter w = \<lparr>originalResponseWriter = w\<rparr>"


section \<open>Example inputs\<close>

text \<open>
  A three-member cluster, one gRPC endpoint per member, and two behaviours of its
  members. In \<open>divergent_hash_env\<close> every member answers at header revision 10 with the
  same hash revision and compaction revision, and the third member's hash differs. In
  \<open>lagging_member_env\<close> the second member answers with a different header revision.
\<close>

definition cluster3 :: EtcdProcessCluster where
  "cluster3 =
     \<lparr>Procs = [\<lparr>member_EndpointsGRPC = [''m0'']\<rparr>, \<lparr>member_EndpointsGRPC = [''m1'']\<rparr>,
               \<lparr>member_EndpointsGRPC = [''m2'']\<rparr>],
      clus_EndpointsGRPC = [''m0'', ''m1'', ''m2'']\<rparr>"

definition divergent_hash_env :: env where
  "divergent_hash_env =
     \<lparr>clientv3_New = (\<lambda>endpoints. None),
      HashKV = (\<lambda>n endpoint revision.
        Inr \<lparr>Hash = (if endpoint = ''m2'' then 0xBEEF else 0xCAFE), HashRevision = 10,
             CompactRevision = 5, Header_Revision = 10\<rparr>)\<rparr>"

definition lagging_member_env :: env where
  "lagging_member_env =
     \<lparr>clientv3_New = (\<lambda>endpoints. None),
      HashKV = (\<lambda>n endpoint revision.
        Inr \<lparr>Hash = 0xCAFE, HashRevision = 7, CompactRevision = 3,
             Header_Revision = (if endpoint = ''m1'' then 9 else 7)\<rparr>)\<rparr>"

text \<open>
  A stream that hands out its buffered bytes and then fails every read with the error
  it ends on (\<open>''EOF''\<close> for an orderly end), and a connection that records the status
  codes and body bytes written to it and the number of flushes.
\<close>

definition connReader :: "(byte list \<times> string) ReadCloser" where
  "connReader =
     \<lparr>ReadCloser_Read = (\<lambda>p (buffered, err).
          if buffered = [] then ((0, Some err, p), (buffered, err))
          else ((min (length p) (length buffered), None,
                 take (length p) buffered @ drop (length buffered) p),
                (drop (length p) buffered, err))),
      ReadCloser_Close = (\<lambda>s. (None, s))\<rparr>"

record conn =
  conn_status :: "int list"
  conn_body :: "byte list"
  conn_flushes :: nat

definition connWriter :: "conn ResponseWriter" where
  "connWriter =
     \<lparr>ResponseWriter_Header = (\<lambda>w. []),
      ResponseWriter_Write = (\<lambda>p w. ((length p, None), w\<lparr>conn_body := conn_body w @ p\<rparr>)),
      ResponseWriter_WriteHeader =
        (\<lambda>statusCode w. w\<lparr>conn_status := conn_status w @ [statusCode]\<rparr>),
      ResponseWriter_Flusher = Some (\<lambda>w. w\<lparr>conn_flushes := conn_flushes w + 1\<rparr>)\<rparr>"

definition idle_conn :: conn where
  "idle_conn = \<lparr>conn_status = [], conn_body = [], conn_flushes = 0\<rparr>"

definition armed :: failpoints where
  "armed = (\<lambda>name. True)"

definition disarmed :: failpoints where
  "disarmed = (\<lambda>name. False)"

section \<open>Properties of the hash consistency verifier\<close>

declare compareHashKVs_part000.simps [simp del]
declare compareHashKVs_kvhash.simps [simp del]

subsection \<open>The comparison loops\<close>

text \<open>
  With one response per member, the loop of the error-returning variant succeeds
  exactly when every adjacent pair agrees on all three fields.
\<close>

lemma compareHashKVs_part000_ok_iff:
  "n \<le> length hashKVs \<Longrightarrow>
   compareHashKVs_part000 i n hashKVs = Inr () \<longleftrightarrow>
     (\<forall>j. i \<le> j \<and> j < n \<longrightarrow>
        HashRevision (hashKVs ! (j - 1)) = HashRevision (hashKVs ! j) \<and>
        CompactRevision (hashKVs ! (j - 1)) = CompactRevision (hashKVs ! j) \<and>
        Hash (hashKVs ! (j - 1)) = Hash (hashKVs ! j))"
proof (induction i n hashKVs rule: compareHashKVs_part000.induct)
  case (1 i n hashKVs)
  let ?Q = "\<lambda>j. HashRevision (hashKVs ! (j - 1)) = HashRevision (hashKVs ! j) \<and>
        CompactRevision (hashKVs ! (j - 1)) = CompactRevision (hashKVs ! j) \<and>
        Hash (hashKVs ! (j - 1)) = Hash (hashKVs ! j)"
  show ?case
  proof (cases "i < n")
    case False
    then have "compareHashKVs_part000 i n hashKVs = Inr ()"
      by (subst compareHashKVs_part000.simps) simp
    moreover have "\<forall>j. i \<le> j \<and> j < n \<longrightarrow> ?Q j" using False by auto
    ultimately show ?thesis by blast
  next
    case True
    with "1.prems" have len: "\<not> length hashKVs \<le> i" by simp
    have split: "(\<forall>j. i \<le> j \<and> j < n \<longrightarrow> ?Q j) \<longleftrightarrow> ?Q i \<and> (\<forall>j. i + 1 \<le> j \<and> j < n \<longrightarrow> ?Q j)"
    proof
      assume a: "\<forall>j. i \<le> j \<and> j < n \<longrightarrow> ?Q j"
      then have "?Q i" using True by blast
      moreover have "\<forall>j. i + 1 \<le> j \<and> j < n \<longrightarrow> ?Q j" using a by simp
      ultimately show "?Q i \<and> (\<forall>j. i + 1 \<le> j \<and> j < n \<longrightarrow> ?Q j)" by blast
    next
      assume b: "?Q i \<and> (\<forall>j. i + 1 \<le> j \<and> j < n \<longrightarrow> ?Q j)"
      show "\<forall>j. i \<le> j \<and> j < n \<longrightarrow> ?Q j"
      proof (intro allI impI)
        fix j assume j: "i \<le> j \<and> j < n"
        show "?Q j"
        proof (cases "j = i")
          case True
          with b show ?thesis by blast
        next
          case False
          with j have "i + 1 \<le> j \<and> j < n" by simp
          with b show ?thesis by blast
        qed
      qed
    qed
    show ?thesis
    proof (cases "?Q i")
      case False
      then have "compareHashKVs_part000 i n hashKVs \<noteq> Inr ()"
        using True len by (subst compareHashKVs_part000.simps) auto
      with False split show ?thesis by blast
    next
      case Qi: True
      then have "compareHashKVs_part000 i n hashKVs = compareHashKVs_part000 (i + 1) n hashKVs"
        using True len by (subst compareHashKVs_part000.simps) simp
      moreover have "compareHashKVs_part000 (i + 1) n hashKVs = Inr () \<longleftrightarrow>
           (\<forall>j. i + 1 \<le> j \<and> j < n \<longrightarrow> ?Q j)"
        using "1.IH" True len Qi "1.prems" by simp
      ultimately show ?thesis using split Qi by simp
    qed
  qed
qed

text \<open>
  The loop of the two-pass variant never looks at the hash of the last of three or more
  members: replacing it by any other value leaves the outcome unchanged.
\<close>

lemma compareHashKVs_kvhash_ignores_last_hash:
  assumes "length HashKVs = n" and "3 \<le> n" and "HashKVs ! (n - 1) = Some h"
  shows "0 < i \<Longrightarrow>
         compareHashKVs_kvhash i n (HashKVs[n - 1 := Some (h\<lparr>Hash := x\<rparr>)])
           = compareHashKVs_kvhash i n HashKVs"
  using assms
proof (induction i n HashKVs rule: compareHashKVs_kvhash.induct)
  case (1 i n HashKVs)
  let ?upd = "HashKVs[n - 1 := Some (h\<lparr>Hash := x\<rparr>)]"
  show ?case
  proof (cases "i < n")
    case False
    then show ?thesis
      by (subst compareHashKVs_kvhash.simps, subst (2) compareHashKVs_kvhash.simps) simp
  next
    case True
    have len: "\<not> length HashKVs \<le> i" "\<not> length ?upd \<le> i" using True "1.prems" by simp_all
    have prev: "?upd ! (i - 1) = HashKVs ! (i - 1)"
      using True "1.prems" by (simp add: nth_list_update)
    have one: "?upd ! 1 = HashKVs ! 1"
      using "1.prems" by (simp add: nth_list_update)
    show ?thesis
    proof (cases "i = n - 1")
      case False
      then have cur: "?upd ! i = HashKVs ! i" by (simp add: nth_list_update)
      show ?thesis
        apply (subst compareHashKVs_kvhash.simps)
        apply (subst (2) compareHashKVs_kvhash.simps)
        using True len prev one cur "1.IH" "1.prems"
        by (auto split: option.splits)
    next
      case last: True
      then have cur: "?upd ! i = Some (h\<lparr>Hash := x\<rparr>)" "HashKVs ! i = Some h"
        using "1.prems" by (simp_all add: nth_list_update)
      have stop: "\<not> i + 1 < n" using last by simp
      have done1: "compareHashKVs_kvhash (i + 1) n ?upd = Inr ()"
        using stop by (subst compareHashKVs_kvhash.simps) simp
      have done2: "compareHashKVs_kvhash (i + 1) n HashKVs = Inr ()"
        using stop by (subst compareHashKVs_kvhash.simps) simp
      show ?thesis
        apply (subst compareHashKVs_kvhash.simps)
        apply (subst (2) compareHashKVs_kvhash.simps)
        using True len prev one cur done1 done2
        by (auto split: option.splits)
    qed
  qed
qed

text \<open>
  On the same cluster the error-returning variant reports the divergent hash when it
  is given the revision, and misses it when it is given revision 0: the probe's
  response then comes first in \<open>hashKVs\<close>, the loop still runs to \<open>len(clus.Procs)\<close>,
  and the last member's response is never read.
\<close>

lemma CheckHashKV_part000_reports_divergent_hash:
  "CheckHashKV_part000 divergent_hash_env cluster3 10 =
     ([(''m0'', 10), (''m1'', 10), (''m2'', 10)], Inl HashMismatch)"
  by (simp add: CheckHashKV_part000_def fixRevision_def getHashKV_def divergent_hash_env_def
        cluster3_def compareHashKVs_part000.simps)

lemma CheckHashKV_part000_rev0_skips_last_member:
  "CheckHashKV_part000 divergent_hash_env cluster3 0 =
     ([(''m0'', 0), (''m0'', 10), (''m1'', 10), (''m2'', 10)], Inr ())"
  by (simp add: CheckHashKV_part000_def fixRevision_def getHashKV_def divergent_hash_env_def
        cluster3_def compareHashKVs_part000.simps)

text \<open>
  Claim C1. \<open>CheckHashKV\<close> compares the collected responses pairwise in enumeration
  order, so that a divergence in a single field on a single member makes the
  verification fail. The two-pass variant does not: on three members that agree on
  hash revision and compaction revision, of which the third reports hash \<open>0xBEEF\<close>
  instead of \<open>0xCAFE\<close>, it probes every member twice and succeeds.
\<close>

theorem CheckHashKV_kvhash_misses_divergent_hash:
  "CheckHashKV_kvhash divergent_hash_env cluster3 10 =
     ([(''m0'', 10), (''m1'', 10), (''m2'', 10), (''m0'', 10), (''m1'', 10), (''m2'', 10)],
      Inr ())"
  by (simp add: CheckHashKV_kvhash_def divergent_hash_env_def cluster3_def word_sless_alt
        compareHashKVs_kvhash.simps)


subsection \<open>Probing at a fixed revision\<close>











text \<open>
  The two-pass variant has no such check. It asks every member at the revision it is
  given, then asks again at the largest header revision it saw, and compares whatever
  comes back: on the cluster whose second member answers at another header revision it
  succeeds.
\<close>

lemma CheckHashKV_kvhash_has_no_header_check:
  "CheckHashKV_kvhash lagging_member_env cluster3 7 =
     ([(''m0'', 7), (''m1'', 7), (''m2'', 7), (''m0'', 9), (''m1'', 9), (''m2'', 9)], Inr ())"
  by (simp add: CheckHashKV_kvhash_def lagging_member_env_def cluster3_def word_sless_alt
        compareHashKVs_kvhash.simps)

section \<open>Properties of the watch worker\<close>

text \<open>
  Claim C6, as the code has it. A target revision received by the worker replaces
  \<open>maxRevision\<close>: afterwards \<open>maxRevision\<close> is the revision just received, whatever it
  was before, and \<open>lastRevision\<close> is unchanged. That is the maximum of the old value
  and the new one only when the new one is not smaller.
\<close>

theorem onRevision_overwrites_maxRevision:
  "maxRevision (step (RevisionRecv v) w) = v \<and>
   lastRevision (step (RevisionRecv v) w) = lastRevision w"
  by (simp add: onRevision_def cancel_def Let_def)

text \<open>
  As stated, claim C6 says that \<open>maxRevision\<close> becomes the maximum of its old value and
  the target received. A worker that receives target 10 and then target 5 ends with
  \<open>maxRevision = 5\<close>, not 10.
\<close>

theorem smaller_target_lowers_maxRevision:
  "maxRevision (checkKVHash [RevisionRecv 10, RevisionRecv 5]) = 5"
  by (simp add: checkKVHash_def checkKVHash_from_def checkKVHash_init_def resetWatch_def
        onRevision_def cancel_def word_sle_eq)

text \<open>
  Claim C3, as the code has it. Once its context is done the worker makes one final
  check and returns: it reports \<open>MaxRevisionNotSet\<close> when \<open>maxRevision\<close> is still 0,
  it reports \<open>EventsNotCollected\<close> with the observed and the required revision when
  \<open>lastRevision < maxRevision\<close>, and it reports nothing else.
\<close>

theorem checkKVHash_final_check:
  assumes "ctx_cancelled w"
  shows "returned (step CtxDone w) \<and>
         t_errors (step CtxDone w) =
           t_errors w @ (if maxRevision w = 0 then [MaxRevisionNotSet] else [])
                      @ (if lastRevision w <s maxRevision w
                         then [EventsNotCollected (lastRevision w) (maxRevision w)] else [])"
  using assms by (simp add: onCtxDone_def Let_def)

text \<open>
  The theorem at work: a worker that was asked for revision 10, has seen nothing past
  revision 1 and is cancelled from outside reports the gap.
\<close>

theorem checkKVHash_final_check_witness:
  "ctx_cancelled (checkKVHash [RevisionRecv 10, ParentCancel]) \<and>
   returned (checkKVHash [RevisionRecv 10, ParentCancel, CtxDone]) \<and>
   t_errors (checkKVHash [RevisionRecv 10, ParentCancel, CtxDone]) = [EventsNotCollected 1 10]"
proof -
  have w: "checkKVHash [RevisionRecv 10, ParentCancel] =
      \<lparr>maxRevision = 10, lastRevision = 1, ctx_cancelled = True, cancel_calls = 0,
       watch_from = [2], t_errors = [], returned = False\<rparr>"
    by (simp add: checkKVHash_def checkKVHash_from_def checkKVHash_init_def resetWatch_def
          onRevision_def cancel_def Let_def word_sle_eq)
  have c: "ctx_cancelled (checkKVHash [RevisionRecv 10, ParentCancel])"
    by (simp add: w)
  have run: "checkKVHash [RevisionRecv 10, ParentCancel, CtxDone] =
      step CtxDone (checkKVHash [RevisionRecv 10, ParentCancel])"
    by (simp add: w checkKVHash_def checkKVHash_from_def checkKVHash_init_def resetWatch_def
          onRevision_def cancel_def Let_def word_sle_eq)
  show ?thesis
    using c checkKVHash_final_check[OF c] by (simp add: run) (simp add: w word_sless_alt)
qed

text \<open>
  As stated, claim C3 says that a worker cancelled from outside before any target
  revision reached it ends without reporting anything. It reports
  \<open>MaxRevisionNotSet\<close>.
\<close>

theorem cancelled_without_target_reports_error:
  "t_errors (checkKVHash [ParentCancel, CtxDone]) = [MaxRevisionNotSet]"
  by (simp add: checkKVHash_def checkKVHash_from_def checkKVHash_init_def resetWatch_def
        onCtxDone_def Let_def word_sless_alt)

text \<open>
  Claim C8. A response that reports the cancellation of the subscription (its
  \<open>Err()\<close> is non-nil and \<open>Canceled\<close> is set) raises \<open>lastRevision\<close> to the compaction
  revision it carries when that is greater, and leaves it alone otherwise; the worker
  opens the next watch at \<open>lastRevision + 1\<close>, reports nothing, and neither returns
  nor cancels.
\<close>

theorem checkKVHash_resumes_after_compaction:
  assumes "resp_Err resp" and "Canceled resp"
  shows "lastRevision (step (WatchRecv resp) w) =
           (if lastRevision w <s resp_CompactRevision resp then resp_CompactRevision resp
            else lastRevision w) \<and>
         watch_from (step (WatchRecv resp) w) =
           watch_from w @ [lastRevision (step (WatchRecv resp) w) + 1] \<and>
         t_errors (step (WatchRecv resp) w) = t_errors w \<and>
         returned (step (WatchRecv resp) w) = returned w \<and>
         ctx_cancelled (step (WatchRecv resp) w) = ctx_cancelled w"
  using assms by (simp add: onWatchResponse_def resetWatch_def)

text \<open>
  The theorem at work: events up to revision 8 were observed, the subscription is
  cancelled with compaction revision 6, and the next watch starts at revision 9.
\<close>

theorem checkKVHash_resumes_after_compaction_witness:
  "lastRevision (checkKVHash [WatchRecv \<lparr>resp_Err = False, Canceled = False,
       resp_CompactRevision = 0, Events = [3, 8]\<rparr>]) = 8 \<and>
   lastRevision (checkKVHash [
       WatchRecv \<lparr>resp_Err = False, Canceled = False, resp_CompactRevision = 0, Events = [3, 8]\<rparr>,
       WatchRecv \<lparr>resp_Err = True, Canceled = True, resp_CompactRevision = 6, Events = []\<rparr>]) = 8 \<and>
   watch_from (checkKVHash [
       WatchRecv \<lparr>resp_Err = False, Canceled = False, resp_CompactRevision = 0, Events = [3, 8]\<rparr>,
       WatchRecv \<lparr>resp_Err = True, Canceled = True, resp_CompactRevision = 6, Events = []\<rparr>])
     = [2, 9] \<and>
   t_errors (checkKVHash [
       WatchRecv \<lparr>resp_Err = False, Canceled = False, resp_CompactRevision = 0, Events = [3, 8]\<rparr>,
       WatchRecv \<lparr>resp_Err = True, Canceled = True, resp_CompactRevision = 6, Events = []\<rparr>]) = []"
proof -
  let ?resp = "\<lparr>resp_Err = True, Canceled = True, resp_CompactRevision = 6, Events = []\<rparr>"
  let ?w = "checkKVHash [WatchRecv \<lparr>resp_Err = False, Canceled = False,
       resp_CompactRevision = 0, Events = [3, 8]\<rparr>]"
  have w: "?w = \<lparr>maxRevision = 0, lastRevision = 8, ctx_cancelled = False, cancel_calls = 0,
       watch_from = [2], t_errors = [], returned = False\<rparr>"
    by (simp add: checkKVHash_def checkKVHash_from_def checkKVHash_init_def resetWatch_def
          onWatchResponse_def Let_def)
  have run: "checkKVHash [
       WatchRecv \<lparr>resp_Err = False, Canceled = False, resp_CompactRevision = 0, Events = [3, 8]\<rparr>,
       WatchRecv ?resp] = step (WatchRecv ?resp) ?w"
    by (simp add: checkKVHash_def checkKVHash_from_def checkKVHash_init_def resetWatch_def
          onWatchResponse_def Let_def)
  have e: "resp_Err ?resp" and c: "Canceled ?resp" by simp_all
  show ?thesis
    using checkKVHash_resumes_after_compaction[OF e c, of ?w]
    by (simp only: run) (simp add: w word_sless_alt)
qed


subsection \<open>Reaching the milestone\<close>








section \<open>Properties of the checker\<close>

lemma sum_length_append_le:
  "sum_list (map length (xs[i := xs ! i @ [v]])) \<le> Suc (sum_list (map length xs))"
proof (induction xs arbitrary: i)
  case Nil
  then show ?case by simp
next
  case (Cons x xs)
  show ?case
  proof (cases i)
    case 0
    then show ?thesis by simp
  next
    case (Suc j)
    with Cons.IH[of j] show ?thesis by simp
  qed
qed

text \<open>
  No step creates a target revision: what the workers have received, together with what
  is still in the shared channel, never grows. A value the distributor takes is
  received by no worker, since no worker reads a per-member channel.
\<close>

lemma distribute_pending:
  "received (distribute c) = received c \<and>
   length (hashKVRevisionChan (distribute c)) \<le> length (hashKVRevisionChan c)"
  by (simp add: distribute_def split: distributor_pc.splits list.splits)

lemma workerStep_pending:
  "sum_list (map length (received (workerStep i ch c))) + length (hashKVRevisionChan (workerStep i ch c))
     \<le> sum_list (map length (received c)) + length (hashKVRevisionChan c)"
proof (cases "hashKVRevisionChan c")
  case Nil
  then show ?thesis
    by (simp add: workerStep_def split: choice.splits option.splits)
next
  case (Cons revision rest)
  then show ?thesis
    using sum_length_append_le[of "received c" i revision]
    by (simp add: workerStep_def split: choice.splits option.splits)
qed

lemma act_pending:
  "sum_list (map length (received (act a c))) + length (hashKVRevisionChan (act a c))
     \<le> sum_list (map length (received c)) + length (hashKVRevisionChan c)"
proof (cases a)
  case Distributor
  then show ?thesis using distribute_pending[of c] by simp
next
  case (Worker i ch)
  then show ?thesis using workerStep_pending[of i ch c] by simp
next
  case CancelContext
  then show ?thesis by simp
qed

lemma act_length_received: "length (received (act a c)) = length (received c)"
  by (cases a)
     (simp_all add: distribute_def workerStep_def
        split: distributor_pc.splits list.splits choice.splits option.splits)

lemma schedule_pending:
  "sum_list (map length (received (foldl (\<lambda>c a. act a c) c0 schedule)))
     + length (hashKVRevisionChan (foldl (\<lambda>c a. act a c) c0 schedule))
   \<le> sum_list (map length (received c0)) + length (hashKVRevisionChan c0)"
proof (induction schedule arbitrary: c0)
  case Nil
  then show ?case by simp
next
  case (Cons a schedule)
  have "sum_list (map length (received (foldl (\<lambda>c a. act a c) (act a c0) schedule)))
     + length (hashKVRevisionChan (foldl (\<lambda>c a. act a c) (act a c0) schedule))
   \<le> sum_list (map length (received (act a c0))) + length (hashKVRevisionChan (act a c0))"
    by (rule Cons.IH)
  also have "\<dots> \<le> sum_list (map length (received c0)) + length (hashKVRevisionChan c0)"
    by (rule act_pending)
  finally show ?case by simp
qed

lemma schedule_length_received:
  "length (received (foldl (\<lambda>c a. act a c) c0 schedule)) = length (received c0)"
  by (induction schedule arbitrary: c0) (simp_all add: act_length_received)

text \<open>All workers together receive at most as many target revisions as the driver sent.\<close>

lemma received_at_most_stream:
  "sum_list (map length (received (ClusterKVHashChecks n stream schedule))) \<le> length stream"
  using schedule_pending[of "ClusterKVHashChecks_init n stream" schedule]
  by (simp add: ClusterKVHashChecks_def ClusterKVHashChecks_init_def sum_list_replicate)

text \<open>
  With two or more workers and a stream that is not empty, under no schedule does every
  worker receive the whole stream.
\<close>

lemma not_every_worker_receives_stream:
  assumes "2 \<le> n" and "stream \<noteq> []"
  shows "\<exists>i<n. received (ClusterKVHashChecks n stream schedule) ! i \<noteq> stream"
proof (rule ccontr)
  let ?rs = "received (ClusterKVHashChecks n stream schedule)"
  assume "\<not> (\<exists>i<n. ?rs ! i \<noteq> stream)"
  then have all: "\<forall>i<n. ?rs ! i = stream" by blast
  have len: "length ?rs = n"
    by (simp add: ClusterKVHashChecks_def ClusterKVHashChecks_init_def schedule_length_received)
  have "?rs = replicate n stream"
    using all len by (simp add: list_eq_iff_nth_eq)
  then have "sum_list (map length ?rs) = n * length stream"
    by (simp add: sum_list_replicate)
  with received_at_most_stream[of n stream schedule]
  have "n * length stream \<le> length stream" by simp
  moreover have "0 < length stream" using assms(2) by simp
  ultimately have "n \<le> 1" by simp
  with assms(1) show False by simp
qed

text \<open>
  Claim C2. The distributor forwards every target revision to each worker's private
  queue and every worker consumes from its own queue, so that every worker observes
  every target revision. The workers are handed the shared channel instead: with two
  members and the stream 5, closed after it, under every schedule at least one
  of the two workers never receives revision 5.
\<close>

theorem ClusterKVHashChecks_target_reaches_one_receiver: "\<exists>i<2. 5 \<notin> set (received (ClusterKVHashChecks 2 [5] schedule) ! i)"
proof -
  let ?rs = "received (ClusterKVHashChecks 2 [5] schedule)"
  have "length ?rs = 2"
    by (simp add: ClusterKVHashChecks_def ClusterKVHashChecks_init_def schedule_length_received)
  then obtain a b where rs: "?rs = [a, b]"
    by (cases ?rs; cases "tl ?rs") auto
  have "sum_list (map length ?rs) \<le> 1"
    using received_at_most_stream[of 2 "[5]" schedule] by simp
  with rs have "length a + length b \<le> 1" by simp
  then have "a = [] \<or> b = []" by (cases a; cases b) auto
  then show ?thesis
  proof
    assume "a = []"
    with rs have "5 \<notin> set (?rs ! 0)" by simp
    then show ?thesis by (intro exI[of _ 0]) simp
  next
    assume "b = []"
    with rs have "5 \<notin> set (?rs ! 1)" by simp
    then show ?thesis by (intro exI[of _ 1]) simp
  qed
qed


section \<open>Properties of the fault-injection stream wrappers\<close>

text \<open>
  Claim C4, as the code has it. While its failpoint is armed, a read through the
  wrapper performs one read of the underlying stream into a scratch buffer as long as
  the caller's, delivers zero bytes, leaves the caller's buffer as it was and returns
  the error of the underlying read, nil or not; a write returns zero bytes and no
  error and a header write returns, and neither touches the underlying writer.
\<close>

theorem armed_wrappers_drop:
  "(fp ''DemoDropRequestBodyFailPoint'' \<longrightarrow>
      hijackedReadCloser_Read fp (hijackRequestBody (Some r)) p s =
        Inr ((0, fst (snd (fst (ReadCloser_Read r (replicate (length p) 0) s))), p),
             snd (ReadCloser_Read r (replicate (length p) 0) s))) \<and>
   (fp ''HijackResponseWriterFailPoint'' \<longrightarrow>
      hijackedResponseWriter_Write fp h p' w = Inr ((0, None), w)) \<and>
   (fp ''HijackResponseWriterHeaderFailPoint'' \<longrightarrow>
      hijackedResponseWriter_WriteHeader fp h statusCode w = Inr w)"
  by (simp add: hijackedReadCloser_Read_def hijackRequestBody_def discardReadData_def
        hijackedResponseWriter_Write_def hijackedResponseWriter_WriteHeader_def
        discardWriteData_def split: prod.splits)

text \<open>
  The theorem at work: an armed read of four bytes takes four of the six buffered bytes
  off the stream and hands none to the caller; status 200 and a body of 50 bytes are
  accepted and the connection stays as it was.
\<close>

theorem armed_wrappers_drop_witness:
  "hijackedReadCloser_Read armed (hijackRequestBody (Some connReader)) [0, 0, 0, 0]
       ([1, 2, 3, 4, 5, 6], ''EOF'')
     = Inr ((0, None, [0, 0, 0, 0]), ([5, 6], ''EOF'')) \<and>
   hijackedResponseWriter_WriteHeader armed (hijackResponseWriter (Some connWriter)) 200 idle_conn
     = Inr idle_conn \<and>
   hijackedResponseWriter_Write armed (hijackResponseWriter (Some connWriter)) (replicate 50 7)
       idle_conn
     = Inr ((0, None), idle_conn)"
  using armed_wrappers_drop[where fp = armed and r = connReader and p = "[0, 0, 0, 0]"
               and s = "([1, 2, 3, 4, 5, 6], ''EOF'')"
               and h = "hijackResponseWriter (Some connWriter)" and p' = "replicate 50 7"
               and w = idle_conn and statusCode = 200]
  by (simp add: armed_def connReader_def)

text \<open>
  As stated, claim C4 says that an armed read returns no read error to the handler.
  When the underlying read fails, here on a connection reset by the peer, the armed
  read returns that error.
\<close>

theorem armed_read_returns_underlying_error:
  "hijackedReadCloser_Read armed (hijackRequestBody (Some connReader)) [0, 0, 0, 0]
       ([], ''connection reset by peer'')
     = Inr ((0, Some ''connection reset by peer'', [0, 0, 0, 0]),
            ([], ''connection reset by peer''))"
  by (simp add: hijackedReadCloser_Read_def hijackRequestBody_def discardReadData_def
        armed_def connReader_def)

text \<open>
  Claim C9. While its failpoint is disarmed, each wrapper over a stream that is
  present does what the stream does: \<open>Read\<close> returns the count, the error and the
  buffer of the underlying read, \<open>Write\<close> and \<open>WriteHeader\<close> are those of the
  underlying writer, and so are \<open>Close\<close> and \<open>Header\<close>; \<open>Flush\<close> is the
  underlying writer's when it has one.
\<close>

theorem disarmed_wrappers_transparent:
  "(\<not> fp ''DemoDropRequestBodyFailPoint'' \<longrightarrow>
      hijackedReadCloser_Read fp (hijackRequestBody (Some r)) p s = Inr (ReadCloser_Read r p s)) \<and>
   hijackedReadCloser_Close (hijackRequestBody (Some r)) s = Inr (ReadCloser_Close r s) \<and>
   (\<not> fp ''HijackResponseWriterFailPoint'' \<longrightarrow>
      hijackedResponseWriter_Write fp (hijackResponseWriter (Some rw)) p' w
        = Inr (ResponseWriter_Write rw p' w)) \<and>
   (\<not> fp ''HijackResponseWriterHeaderFailPoint'' \<longrightarrow>
      hijackedResponseWriter_WriteHeader fp (hijackResponseWriter (Some rw)) statusCode w
        = Inr (ResponseWriter_WriteHeader rw statusCode w)) \<and>
   (\<forall>flush. ResponseWriter_Flusher rw = Some flush \<longrightarrow>
      hijackedResponseWriter_Flush (hijackResponseWriter (Some rw)) w = Inr (flush w)) \<and>
   hijackedResponseWriter_Header (hijackResponseWriter (Some rw)) w
     = Inr (ResponseWriter_Header rw w)"
  by (simp add: hijackedReadCloser_Read_def hijackedReadCloser_Close_def hijackRequestBody_def
        hijackedResponseWriter_Write_def hijackedResponseWriter_WriteHeader_def
        hijackedResponseWriter_Flush_def hijackedResponseWriter_Header_def
        hijackResponseWriter_def)

text \<open>
  The theorem at work: a disarmed read delivers the four bytes read, or the stream's
  error at its end; a disarmed header write, body write and flush reach the
  connection.
\<close>

theorem disarmed_wrappers_transparent_witness:
  "hijackedReadCloser_Read disarmed (hijackRequestBody (Some connReader)) [0, 0, 0, 0]
       ([1, 2, 3, 4, 5, 6], ''EOF'')
     = Inr ((4, None, [1, 2, 3, 4]), ([5, 6], ''EOF'')) \<and>
   hijackedReadCloser_Read disarmed (hijackRequestBody (Some connReader)) [0, 0, 0, 0]
       ([], ''EOF'')
     = Inr ((0, Some ''EOF'', [0, 0, 0, 0]), ([], ''EOF'')) \<and>
   hijackedResponseWriter_WriteHeader disarmed (hijackResponseWriter (Some connWriter)) 200
       idle_conn
     = Inr (idle_conn\<lparr>conn_status := [200]\<rparr>) \<and>
   hijackedResponseWriter_Write disarmed (hijackResponseWriter (Some connWriter)) [7, 7, 7]
       idle_conn
     = Inr ((3, None), idle_conn\<lparr>conn_body := [7, 7, 7]\<rparr>) \<and>
   hijackedResponseWriter_Flush (hijackResponseWriter (Some connWriter)) idle_conn
     = Inr (idle_conn\<lparr>conn_flushes := 1\<rparr>)"
  using disarmed_wrappers_transparent[where fp = disarmed and r = connReader
          and p = "[0, 0, 0, 0]" and s = "([1, 2, 3, 4, 5, 6], ''EOF'')" and rw = connWriter
          and p' = "[7, 7, 7]" and w = idle_conn and statusCode = 200]
        disarmed_wrappers_transparent[where fp = disarmed and r = connReader
          and p = "[0, 0, 0, 0]" and s = "([], ''EOF'')" and rw = connWriter
          and p' = "[7, 7, 7]" and w = idle_conn and statusCode = 200]
  by (simp add: disarmed_def connReader_def connWriter_def idle_conn_def)

text \<open>
  Over an absent underlying stream, the methods that test for it return without an
  error, whatever the state of the writer's failpoints and as long as the reader's
  failpoint is disarmed; \<open>Header\<close> and \<open>Flush\<close> do not test for it.
\<close>

lemma nil_delegate:
  "(\<not> fp ''DemoDropRequestBodyFailPoint'' \<longrightarrow>
      hijackedReadCloser_Read fp (hijackRequestBody None) p s = Inr ((0, None, p), s)) \<and>
   hijackedReadCloser_Close (hijackRequestBody None) s = Inr (None, s) \<and>
   hijackedResponseWriter_Write fp (hijackResponseWriter None) p' w = Inr ((0, None), w) \<and>
   hijackedResponseWriter_WriteHeader fp (hijackResponseWriter None) statusCode w = Inr w \<and>
   hijackedResponseWriter_Header (hijackResponseWriter None) w = Inl NilPointerDereference \<and>
   hijackedResponseWriter_Flush (hijackResponseWriter None) w = Inl InterfaceConversion"
  by (simp add: hijackedReadCloser_Read_def hijackedReadCloser_Close_def hijackRequestBody_def
        hijackedResponseWriter_Write_def hijackedResponseWriter_WriteHeader_def
        hijackedResponseWriter_Flush_def hijackedResponseWriter_Header_def
        hijackResponseWriter_def discardWriteData_def)

text \<open>
  Claim C10. Over an absent underlying stream every method but \<open>Flush\<close> returns
  without failing, and \<open>Read\<close> returns zero bytes and no error. With the request-body
  failpoint armed, \<open>Read\<close> on the wrapper that \<open>hijackRequestBody\<close> builds around a
  nil body calls \<open>discardReadData\<close> before the nil test and panics.
\<close>

theorem armed_read_nil_delegate_panics:
  "hijackedReadCloser_Read (\<lambda>name. name = ''DemoDropRequestBodyFailPoint'')
       (hijackRequestBody (None :: unit ReadCloser option)) [0, 0, 0, 0] ()
     = Inl NilPointerDereference"
  by (simp add: hijackedReadCloser_Read_def hijackRequestBody_def discardReadData_def)

end
